theory Spec2Isabelle
  imports Main
begin

section \<open>Foremast: assembling and publishing Spinnaker pipelines\<close>

text \<open>
  A shallow embedding of \<^verbatim>\<open>SpinnakerPipeline\<close> from
  \<^verbatim>\<open>src/foremast/pipeline/create_pipeline.py\<close>: the methods
  \<^verbatim>\<open>post_pipeline\<close>, \<^verbatim>\<open>render_wrapper\<close> and \<^verbatim>\<open>create_pipeline\<close>.
  Every call that leaves the class (cleaning, lookups, template rendering, the HTTP request,
  info-level logging) is recorded as an event, in program order, so that the order of
  effects can be stated; every \<^verbatim>\<open>raise\<close> is a value \<open>Inl e\<close>.
\<close>

subsection \<open>Data\<close>

type_synonym env = string
type_synonym region = string

text \<open>
  A pipeline is the JSON object rendered from the wrapper template. The code reads two of
  its keys, \<^verbatim>\<open>'stages'\<close> and \<^verbatim>\<open>'name'\<close>; the stages themselves are opaque.
\<close>

record 'st pipeline =
  name :: string
  application :: string
  stages :: "'st list"

text \<open>
  The argument of \<^verbatim>\<open>post_pipeline\<close> is either a string holding JSON or a dict
  (\<^verbatim>\<open>isinstance(pipeline, str)\<close>).
\<close>

datatype 'st pipeline_arg = PStr string | PDict "'st pipeline"

text \<open>
  An exception built as \<^verbatim>\<open>'...{0}...{1}'.format(a, b)\<close> is kept as its format
  string and its arguments, in order.
\<close>

datatype 'j fmt_arg = ArgStr string | ArgInt int | ArgJson 'j

datatype 'j error =
    KeyError
  | ValueError
  | SpinnakerPipelineCreationFailed string "'j fmt_arg list"

text \<open>
  The response of \<^verbatim>\<open>requests.post\<close>: its status code and what
  \<^verbatim>\<open>.json()\<close> returns (\<open>None\<close> when the body is not JSON and
  \<^verbatim>\<open>.json()\<close> raises a \<^verbatim>\<open>ValueError\<close>).
\<close>

record 'j response =
  status_code :: int
  json :: "'j option"

text \<open>
  The template context built by \<^verbatim>\<open>render_wrapper\<close> (the dict under
  \<^verbatim>\<open>'app'\<close>).
\<close>

record wrapper_data =
  w_ami_id :: string
  w_appname :: string
  w_base :: string
  w_environment :: string
  w_region :: region
  w_triggerjob :: string
  w_email :: string
  w_slack :: string
  w_root_volume_size :: int
  w_ami_template_file :: "string option"

text \<open>
  The keys of \<^verbatim>\<open>self.settings\<close> that the class reads.
  \<open>env_regions st e\<close> is \<^verbatim>\<open>self.settings[e]['regions']\<close>, \<open>None\<close> where
  the lookup raises \<^verbatim>\<open>KeyError\<close>.
\<close>

record settings =
  pipeline_env :: "env list"
  pipeline_base :: string
  notifications_email :: string
  notifications_slack :: string
  root_volume_size :: int
  env_regions :: "env \<Rightarrow> region list option"

text \<open>The attributes of a \<^verbatim>\<open>SpinnakerPipeline\<close> object set by \<^verbatim>\<open>__init__\<close>.\<close>

record spinnaker_pipeline =
  base :: "string option"
  trigger_job :: string
  app_name :: string
  settings :: settings

text \<open>
  The collaborators outside the class, as functions of the arguments that vary during a run
  (\<^verbatim>\<open>generated\<close>, \<^verbatim>\<open>settings[env]\<close> and \<^verbatim>\<open>pipeline_data\<close> are
  fixed by the object). \<open>get_subnets x e r\<close> is \<^verbatim>\<open>get_subnets()[e][r]\<close>,
  \<open>None\<close> where either lookup raises \<^verbatim>\<open>KeyError\<close>.
  \<open>construct_pipeline_block\<close> stands for \<^verbatim>\<open>json.loads(construct_pipeline_block(...))\<close>
  and \<open>get_template\<close> for \<^verbatim>\<open>json.loads(get_template(...))\<close>.
  Exceptions raised inside the collaborators themselves are outside this model.
\<close>

record ('st, 'sub, 'j) externals =
  ami_lookup :: "string \<Rightarrow> region \<Rightarrow> string"
  get_template :: "wrapper_data \<Rightarrow> 'st pipeline"
  get_subnets :: "env \<Rightarrow> region \<Rightarrow> 'sub option"
  construct_pipeline_block :: "env \<Rightarrow> env option \<Rightarrow> region \<Rightarrow> 'sub \<Rightarrow> 'st list"
  renumerate_stages :: "'st pipeline \<Rightarrow> 'st pipeline"
  json_dumps :: "'st pipeline \<Rightarrow> string"
  json_loads :: "string \<Rightarrow> 'st pipeline option"
  requests_post :: "string \<Rightarrow> 'j response"

text \<open>The three \<^verbatim>\<open>self.log.info\<close> records.\<close>

datatype log_record =
    Environments_and_Regions "(region \<times> env list) list"
  | Not_available env region
  | Successfully_created string

datatype 'st event =
    Clean_pipelines string
  | Log_info log_record
  | Get_subnets
  | Ami_lookup string region
  | Get_template wrapper_data
  | Construct_pipeline_block env "env option" region
  | Renumerate_stages "'st pipeline"
  | Requests_post string

subsection \<open>Matrix resolution (lines 144 to 147)\<close>

text \<open>
  \<^verbatim>\<open>regions_envs[region].append(env)\<close> on a \<^verbatim>\<open>defaultdict(list)\<close>. A dict keeps
  its keys in insertion order, so it is an association list with distinct keys.
\<close>

fun append_env :: "region \<Rightarrow> env \<Rightarrow> (region \<times> env list) list \<Rightarrow> (region \<times> env list) list" where
  "append_env r e [] = [(r, [e])]"
| "append_env r e ((k, v) # m) =
     (if k = r then (k, v @ [e]) # m else (k, v) # append_env r e m)"

text \<open>The inner loop \<^verbatim>\<open>for region in self.settings[env]['regions']\<close>.\<close>

fun regions_loop :: "env \<Rightarrow> region list \<Rightarrow> (region \<times> env list) list \<Rightarrow> (region \<times> env list) list" where
  "regions_loop e [] m = m"
| "regions_loop e (r # rs) m = regions_loop e rs (append_env r e m)"

text \<open>The outer loop \<^verbatim>\<open>for env in pipeline_envs\<close>.\<close>

fun envs_loop ::
  "settings \<Rightarrow> env list \<Rightarrow> (region \<times> env list) list \<Rightarrow> 'j error + (region \<times> env list) list" where
  "envs_loop st [] m = Inr m"
| "envs_loop st (e # es) m =
     (case env_regions st e of
        None \<Rightarrow> Inl KeyError
      | Some rs \<Rightarrow> envs_loop st es (regions_loop e rs m))"

definition resolve_regions_envs :: "settings \<Rightarrow> 'j error + (region \<times> env list) list" where
  "resolve_regions_envs st = envs_loop st (pipeline_env st) []"

subsection \<open>\<^verbatim>\<open>render_wrapper\<close> (lines 78 to 129)\<close>

definition root_volume_size_message :: string where
  \<open>root_volume_size_message =
     ''Setting "root_volume_size" over 50G is not allowed. We found {0}G in your configs.''\<close>

definition ami_templates_mapping :: "region \<Rightarrow> string option" where
  "ami_templates_mapping =
     map_of [(''us-east-1'', ''aws-ebs.json''), (''us-west-2'', ''aws-ebs-west-2.json'')]"

text \<open>
  \<^verbatim>\<open>ami_templates_mapping.get(region, ami_templates_mapping.get('us-east-1'))\<close>.
\<close>

definition ami_template_file :: "region \<Rightarrow> string option" where
  "ami_template_file r =
     (case ami_templates_mapping r of
        Some f \<Rightarrow> Some f
      | None \<Rightarrow> ami_templates_mapping ''us-east-1'')"

text \<open>
  \<^verbatim>\<open>if self.base: base = self.base\<close>: \<^verbatim>\<open>None\<close> and the empty string are
  both false.
\<close>

definition chosen_base :: "spinnaker_pipeline \<Rightarrow> string" where
  "chosen_base self =
     (case base self of
        None \<Rightarrow> pipeline_base (settings self)
      | Some b \<Rightarrow> if b = [] then pipeline_base (settings self) else b)"

definition wrapper_app_data :: "spinnaker_pipeline \<Rightarrow> string \<Rightarrow> region \<Rightarrow> wrapper_data" where
  "wrapper_app_data self ami r =
     \<lparr> w_ami_id = ami,
       w_appname = app_name self,
       w_base = chosen_base self,
       w_environment = ''packaging'',
       w_region = r,
       w_triggerjob = trigger_job self,
       w_email = notifications_email (settings self),
       w_slack = notifications_slack (settings self),
       w_root_volume_size = root_volume_size (settings self),
       w_ami_template_file = ami_template_file r \<rparr>"

definition render_wrapper ::
  "spinnaker_pipeline \<Rightarrow> ('st, 'sub, 'j) externals \<Rightarrow> region
     \<Rightarrow> 'st event list \<times> ('j error + 'st pipeline)" where
  "render_wrapper self ext r =
     (if root_volume_size (settings self) > 50
      then ([], Inl (SpinnakerPipelineCreationFailed root_volume_size_message
                       [ArgInt (root_volume_size (settings self))]))
      else
        (let ami = ami_lookup ext (chosen_base self) r;
             data = wrapper_app_data self ami r
         in ([Ami_lookup (chosen_base self) r, Get_template data],
             Inr (get_template ext data))))"

subsection \<open>\<^verbatim>\<open>post_pipeline\<close> (lines 48 to 76)\<close>

text \<open>
  \<^verbatim>\<open>Response.ok\<close> of the \<^verbatim>\<open>requests\<close> library: true unless
  \<^verbatim>\<open>raise_for_status()\<close> raises, which it does for a status code from 400 to 599.
\<close>

definition ok :: "'j response \<Rightarrow> bool" where
  "ok resp \<longleftrightarrow> \<not> (400 \<le> status_code resp \<and> status_code resp < 600)"

definition pipeline_json :: "('st, 'sub, 'j) externals \<Rightarrow> 'st pipeline_arg \<Rightarrow> string" where
  "pipeline_json ext arg = (case arg of PStr s \<Rightarrow> s | PDict p \<Rightarrow> json_dumps ext p)"

text \<open>
  \<^verbatim>\<open>json.loads(pipeline_json)['name']\<close>. For a dict argument
  \<^verbatim>\<open>json.loads\<close> reads back what \<^verbatim>\<open>json.dumps\<close> wrote, so the name is the
  dict's own; for a string argument the parse may fail.
\<close>

definition loaded_name :: "('st, 'sub, 'j) externals \<Rightarrow> 'st pipeline_arg \<Rightarrow> string option" where
  "loaded_name ext arg =
     (case arg of
        PStr s \<Rightarrow> map_option name (json_loads ext s)
      | PDict p \<Rightarrow> Some (name p))"

definition post_pipeline ::
  "spinnaker_pipeline \<Rightarrow> ('st, 'sub, 'j) externals \<Rightarrow> 'st pipeline_arg
     \<Rightarrow> 'st event list \<times> ('j error + unit)" where
  "post_pipeline self ext arg =
     (let body = pipeline_json ext arg;
          pipeline_response = requests_post ext body
      in if \<not> ok pipeline_response
         then (case json pipeline_response of
                 None \<Rightarrow> ([Requests_post body], Inl ValueError)
               | Some j \<Rightarrow>
                   ([Requests_post body],
                    Inl (SpinnakerPipelineCreationFailed
                           ''Failed to create pipeline for {0}: {1}''
                           [ArgStr (app_name self), ArgJson j])))
         else (case loaded_name ext arg of
                 None \<Rightarrow> ([Requests_post body], Inl ValueError)
               | Some n \<Rightarrow>
                   ([Requests_post body, Log_info (Successfully_created n)], Inr ())))"

subsection \<open>\<^verbatim>\<open>create_pipeline\<close> (lines 131 to 187)\<close>

text \<open>\<^verbatim>\<open>d[k] = v\<close> on an insertion-ordered dict.\<close>

fun dict_set :: "'k \<Rightarrow> 'v \<Rightarrow> ('k \<times> 'v) list \<Rightarrow> ('k \<times> 'v) list" where
  "dict_set k v [] = [(k, v)]"
| "dict_set k v ((k', v') # m) =
     (if k' = k then (k, v) # m else (k', v') # dict_set k v m)"

text \<open>
  The loop \<^verbatim>\<open>for env in envs\<close> of lines 160 to 178, on the pipeline of one region.
  \<open>previous_env\<close> is the loop's variable of that name; the \<^verbatim>\<open>KeyError\<close> of
  \<^verbatim>\<open>subnets[env][region]\<close> is caught, logged and the loop continues.
\<close>

fun blocks_loop ::
  "('st, 'sub, 'j) externals \<Rightarrow> region \<Rightarrow> env list \<Rightarrow> env option \<Rightarrow> 'st pipeline
     \<Rightarrow> 'st event list \<times> 'st pipeline" where
  "blocks_loop ext r [] previous_env p = ([], p)"
| "blocks_loop ext r (e # envs) previous_env p =
     (case get_subnets ext e r of
        None \<Rightarrow>
          (case blocks_loop ext r envs previous_env p of
             (evs, p') \<Rightarrow> (Log_info (Not_available e r) # evs, p'))
      | Some region_subnets \<Rightarrow>
          (case blocks_loop ext r envs (Some e)
                  (p\<lparr>stages := stages p @ construct_pipeline_block ext e previous_env r region_subnets\<rparr>) of
             (evs, p') \<Rightarrow> (Construct_pipeline_block e previous_env r # evs, p')))"

text \<open>The loop \<^verbatim>\<open>for region, envs in regions_envs.items()\<close> of lines 154 to 178.\<close>

fun assemble_loop ::
  "spinnaker_pipeline \<Rightarrow> ('st, 'sub, 'j) externals \<Rightarrow> (region \<times> env list) list
     \<Rightarrow> (region \<times> 'st pipeline) list
     \<Rightarrow> 'st event list \<times> ('j error + (region \<times> 'st pipeline) list)" where
  "assemble_loop self ext [] pipelines = ([], Inr pipelines)"
| "assemble_loop self ext ((r, envs) # rest) pipelines =
     (case render_wrapper self ext r of
        (evs, Inl err) \<Rightarrow> (evs, Inl err)
      | (evs, Inr wrapper) \<Rightarrow>
          (case blocks_loop ext r envs None wrapper of
             (evs', p) \<Rightarrow>
               (case assemble_loop self ext rest (dict_set r p pipelines) of
                  (evs'', res) \<Rightarrow> (evs @ evs' @ evs'', res))))"

text \<open>The loop \<^verbatim>\<open>for region, pipeline in pipelines.items()\<close> of lines 182 to 185.\<close>

fun publish_loop ::
  "spinnaker_pipeline \<Rightarrow> ('st, 'sub, 'j) externals \<Rightarrow> (region \<times> 'st pipeline) list
     \<Rightarrow> 'st event list \<times> ('j error + unit)" where
  "publish_loop self ext [] = ([], Inr ())"
| "publish_loop self ext ((r, p) # rest) =
     (case post_pipeline self ext (PDict (renumerate_stages ext p)) of
        (evs, Inl err) \<Rightarrow> (Renumerate_stages p # evs, Inl err)
      | (evs, Inr u) \<Rightarrow>
          (case publish_loop self ext rest of
             (evs', res) \<Rightarrow> (Renumerate_stages p # evs @ evs', res)))"

definition create_pipeline ::
  "spinnaker_pipeline \<Rightarrow> ('st, 'sub, 'j) externals \<Rightarrow> 'st event list \<times> ('j error + bool)" where
  "create_pipeline self ext =
     (case resolve_regions_envs (settings self) of
        Inl err \<Rightarrow> ([Clean_pipelines (app_name self)], Inl err)
      | Inr regions_envs \<Rightarrow>
          (case assemble_loop self ext regions_envs [] of
             (evs, Inl err) \<Rightarrow>
               (Clean_pipelines (app_name self)
                  # Log_info (Environments_and_Regions regions_envs) # Get_subnets # evs,
                Inl err)
           | (evs, Inr pipelines) \<Rightarrow>
               (case publish_loop self ext pipelines of
                  (evs', Inl err) \<Rightarrow>
                    (Clean_pipelines (app_name self)
                       # Log_info (Environments_and_Regions regions_envs) # Get_subnets
                       # evs @ evs',
                     Inl err)
                | (evs', Inr u) \<Rightarrow>
                    (Clean_pipelines (app_name self)
                       # Log_info (Environments_and_Regions regions_envs) # Get_subnets
                       # evs @ evs',
                     Inr True))))"

text \<open>
  The dict \<^verbatim>\<open>pipelines\<close> as it stands after the assembly loop (the value logged as
  ``Assembled Pipelines''), when no wrapper failed to render.
\<close>

definition assembled_pipelines ::
  "spinnaker_pipeline \<Rightarrow> ('st, 'sub, 'j) externals \<Rightarrow> 'j error + (region \<times> 'st pipeline) list" where
  "assembled_pipelines self ext =
     (case resolve_regions_envs (settings self) of
        Inl err \<Rightarrow> Inl err
      | Inr regions_envs \<Rightarrow> snd (assemble_loop self ext regions_envs []))"

subsection \<open>The claims' own notions\<close>

text \<open>
  \<^verbatim>\<open>regions_envs[r]\<close> read as on a \<^verbatim>\<open>defaultdict(list)\<close>: the empty list for
  a region that is not a key.
\<close>

definition envs_of :: "(region \<times> env list) list \<Rightarrow> region \<Rightarrow> env list" where
  "envs_of m r = (case map_of m r of None \<Rightarrow> [] | Some v \<Rightarrow> v)"

definition declared_regions :: "settings \<Rightarrow> env \<Rightarrow> region list" where
  "declared_regions st e = (case env_regions st e of None \<Rightarrow> [] | Some rs \<Rightarrow> rs)"

text \<open>
  The environments that declare region \<open>r\<close>, in declaration order, each as often as it
  lists \<open>r\<close>.
\<close>

definition declaring :: "settings \<Rightarrow> region \<Rightarrow> env list" where
  "declaring st r =
     concat (map (\<lambda>e. replicate (count_list (declared_regions st e) r) e) (pipeline_env st))"

text \<open>The environments of a region for which \<^verbatim>\<open>subnets[env][region]\<close> exists.\<close>

definition available :: "('st, 'sub, 'j) externals \<Rightarrow> region \<Rightarrow> env list \<Rightarrow> env list" where
  "available ext r envs = filter (\<lambda>e. get_subnets ext e r \<noteq> None) envs"

text \<open>Each element of a list paired with the element before it, \<open>None\<close> for the first.\<close>

definition chained :: "'a option \<Rightarrow> 'a list \<Rightarrow> ('a \<times> 'a option) list" where
  "chained prev xs = zip xs (prev # map Some xs)"

definition with_predecessor :: "'a list \<Rightarrow> ('a \<times> 'a option) list" where
  "with_predecessor xs = chained None xs"

text \<open>The stage block rendered for an available environment and its predecessor.\<close>

definition block_of :: "('st, 'sub, 'j) externals \<Rightarrow> region \<Rightarrow> env \<times> env option \<Rightarrow> 'st list" where
  "block_of ext r ep =
     (case get_subnets ext (fst ep) r of
        None \<Rightarrow> []
      | Some region_subnets \<Rightarrow> construct_pipeline_block ext (fst ep) (snd ep) r region_subnets)"

definition wrapper_of :: "spinnaker_pipeline \<Rightarrow> ('st, 'sub, 'j) externals \<Rightarrow> region \<Rightarrow> 'st pipeline" where
  "wrapper_of self ext r =
     get_template ext (wrapper_app_data self (ami_lookup ext (chosen_base self) r) r)"

text \<open>The pipeline assembled for one entry of \<^verbatim>\<open>regions_envs\<close>.\<close>

definition region_pipeline ::
  "spinnaker_pipeline \<Rightarrow> ('st, 'sub, 'j) externals \<Rightarrow> region \<times> env list \<Rightarrow> region \<times> 'st pipeline" where
  "region_pipeline self ext re =
     (fst re, snd (blocks_loop ext (fst re) (snd re) None (wrapper_of self ext (fst re))))"

text \<open>The exception of line 98.\<close>

definition volume_error :: "spinnaker_pipeline \<Rightarrow> 'j error" where
  "volume_error self =
     SpinnakerPipelineCreationFailed root_volume_size_message
       [ArgInt (root_volume_size (settings self))]"

text \<open>
  What \<^verbatim>\<open>post_pipeline\<close> raises for a response that is not \<^verbatim>\<open>ok\<close> (lines 70
  to 73; \<^verbatim>\<open>.json()\<close> is evaluated first).
\<close>

definition rejection :: "spinnaker_pipeline \<Rightarrow> 'j response \<Rightarrow> 'j error" where
  "rejection self resp =
     (case json resp of
        None \<Rightarrow> ValueError
      | Some j \<Rightarrow> SpinnakerPipelineCreationFailed ''Failed to create pipeline for {0}: {1}''
                    [ArgStr (app_name self), ArgJson j])"


text \<open>
  What a trace says happened: the calls of \<^verbatim>\<open>construct_pipeline_block\<close> for a region
  (environment and \<^verbatim>\<open>previous_env\<close>), the environments logged as not available for a
  region, and the bodies sent by \<^verbatim>\<open>requests.post\<close>, each in program order.
\<close>

fun block_calls :: "region \<Rightarrow> 'st event list \<Rightarrow> (env \<times> env option) list" where
  "block_calls r [] = []"
| "block_calls r (Construct_pipeline_block e pe r' # evs) =
     (if r' = r then (e, pe) # block_calls r evs else block_calls r evs)"
| "block_calls r (ev # evs) = block_calls r evs"


fun posts :: "'st event list \<Rightarrow> string list" where
  "posts [] = []"
| "posts (Requests_post b # evs) = b # posts evs"
| "posts (ev # evs) = posts evs"


fun lookups :: "'st event list \<Rightarrow> 'st event list" where
  "lookups [] = []"
| "lookups (Ami_lookup b r # evs) = Ami_lookup b r # lookups evs"
| "lookups (Get_template d # evs) = Get_template d # lookups evs"
| "lookups (ev # evs) = lookups evs"

text \<open>The request body of an assembled pipeline, and whether the remote accepts it.\<close>

definition body_of :: "('st, 'sub, 'j) externals \<Rightarrow> 'st pipeline \<Rightarrow> string" where
  "body_of ext p = json_dumps ext (renumerate_stages ext p)"

definition accepted :: "('st, 'sub, 'j) externals \<Rightarrow> region \<times> 'st pipeline \<Rightarrow> bool" where
  "accepted ext rp = ok (requests_post ext (body_of ext (snd rp)))"

subsection \<open>The remote store\<close>







subsection \<open>A concrete application\<close>

text \<open>
  Three environments over two regions, as in the specification's matrix example;
  \<open>stage\<close> has no subnets in \<open>us-west-2\<close>.
\<close>

definition example_settings :: settings where
  "example_settings =
     \<lparr> pipeline_env = [''dev'', ''stage'', ''prod''],
       pipeline_base = ''fedora'',
       notifications_email = ''ops@example.com'',
       notifications_slack = ''#deploys'',
       root_volume_size = 8,
       env_regions = map_of
         [(''dev'', [''us-east-1'']),
          (''stage'', [''us-east-1'', ''us-west-2'']),
          (''prod'', [''us-west-2''])] \<rparr>"

definition example_self :: spinnaker_pipeline where
  "example_self =
     \<lparr> base = None, trigger_job = ''build-app'', app_name = ''coreapp'',
       settings = example_settings \<rparr>"

text \<open>
  Collaborators for it: stages are strings, a body is the pipeline's name, renumbering
  changes nothing, and the remote answers 201 to everything.
\<close>

definition example_ext :: "(string, string, string) externals" where
  "example_ext =
     \<lparr> ami_lookup = (\<lambda>b r. ''ami-'' @ b),
       get_template = (\<lambda>d. \<lparr> name = w_appname d @ '' '' @ w_region d,
                               application = w_appname d,
                               stages = [''bake''] \<rparr>),
       get_subnets = (\<lambda>e r. if e = ''stage'' \<and> r = ''us-west-2'' then None else Some (e @ r)),
       construct_pipeline_block = (\<lambda>e pe r sub. [''deploy '' @ e, ''judge '' @ e]),
       renumerate_stages = (\<lambda>p. p),
       json_dumps = name,
       json_loads = (\<lambda>s. None),
       requests_post = (\<lambda>b. \<lparr> status_code = 201, json = None \<rparr>) \<rparr>"

text \<open>The same with a remote that answers 500 to the pipeline of \<open>us-east-1\<close> only.\<close>

definition rejecting_ext :: "(string, string, string) externals" where
  "rejecting_ext =
     example_ext \<lparr> requests_post :=
       (\<lambda>b. if b = ''coreapp us-east-1''
            then \<lparr> status_code = 500, json = Some ''conflict'' \<rparr>
            else \<lparr> status_code = 201, json = None \<rparr>) \<rparr>"


definition refusing_ext :: "(string, string, string) externals" where
  "refusing_ext =
     example_ext \<lparr> requests_post := (\<lambda>b. \<lparr> status_code = 500, json = Some ''conflict'' \<rparr>) \<rparr>"

text \<open>The assembled pipelines of the two regions.\<close>

definition east_pipeline :: "string pipeline" where
  "east_pipeline =
     \<lparr> name = ''coreapp us-east-1'', application = ''coreapp'',
       stages = [''bake'', ''deploy dev'', ''judge dev'', ''deploy stage'', ''judge stage''] \<rparr>"

definition west_pipeline :: "string pipeline" where
  "west_pipeline =
     \<lparr> name = ''coreapp us-west-2'', application = ''coreapp'',
       stages = [''bake'', ''deploy prod'', ''judge prod''] \<rparr>"

text \<open>The same application with a root volume of 60G.\<close>

definition oversized_self :: spinnaker_pipeline where
  "oversized_self = example_self \<lparr> settings := example_settings \<lparr> root_volume_size := 60 \<rparr> \<rparr>"


section \<open>Properties\<close>

subsection \<open>Matrix resolution\<close>

lemma envs_of_append_env:
  "envs_of (append_env r e m) r' = envs_of m r' @ (if r' = r then [e] else [])"
  by (induction m) (auto simp: envs_of_def)

lemma map_fst_append_env:
  "map fst (append_env r e m) = (if r \<in> fst ` set m then map fst m else map fst m @ [r])"
  by (induction m) (auto simp: rev_image_eqI)

lemma keys_append_env: "fst ` set (append_env r e m) = insert r (fst ` set m)"
proof -
  have "set (map fst (append_env r e m)) = insert r (set (map fst m))"
    unfolding map_fst_append_env by auto
  then show ?thesis by simp
qed

lemma distinct_append_env: "distinct (map fst m) \<Longrightarrow> distinct (map fst (append_env r e m))"
  by (simp add: map_fst_append_env)

lemma envs_of_regions_loop:
  "envs_of (regions_loop e rs m) r = envs_of m r @ replicate (count_list rs r) e"
  by (induction rs arbitrary: m) (auto simp: envs_of_append_env replicate_app_Cons_same)

lemma keys_regions_loop: "fst ` set (regions_loop e rs m) = set rs \<union> fst ` set m"
  by (induction rs arbitrary: m) (auto simp: keys_append_env)

lemma distinct_regions_loop:
  "distinct (map fst m) \<Longrightarrow> distinct (map fst (regions_loop e rs m))"
  by (induction rs arbitrary: m) (auto simp: distinct_append_env)

lemma envs_loop_Inr:
  "\<forall>e \<in> set es. env_regions st e \<noteq> None \<Longrightarrow> \<exists>m'. envs_loop st es m = Inr m'"
  by (induction es arbitrary: m) auto

lemma envs_of_envs_loop:
  "envs_loop st es m = Inr m' \<Longrightarrow>
   envs_of m' r = envs_of m r @ concat (map (\<lambda>e. replicate (count_list (declared_regions st e) r) e) es)"
  by (induction es arbitrary: m) (auto simp: envs_of_regions_loop declared_regions_def split: option.splits)

lemma keys_envs_loop:
  "envs_loop st es m = Inr m' \<Longrightarrow>
   fst ` set m' = fst ` set m \<union> (\<Union>e \<in> set es. set (declared_regions st e))"
  by (induction es arbitrary: m) (auto simp: keys_regions_loop declared_regions_def split: option.splits)

lemma distinct_envs_loop:
  "envs_loop st es m = Inr m' \<Longrightarrow> distinct (map fst m) \<Longrightarrow> distinct (map fst m')"
  by (induction es arbitrary: m) (auto simp: distinct_regions_loop split: option.splits)

lemma declaring_Nil_iff:
  "declaring st r = [] \<longleftrightarrow> (\<forall>e \<in> set (pipeline_env st). r \<notin> set (declared_regions st e))"
  by (auto simp: declaring_def count_list_0_iff)

lemma count_list_distinct: "distinct rs \<Longrightarrow> count_list rs r = (if r \<in> set rs then 1 else 0)"
  by (induction rs) auto

lemma concat_replicate_filter:
  "\<forall>e \<in> set es. distinct (f e) \<Longrightarrow>
   concat (map (\<lambda>e. replicate (count_list (f e) r) e) es) = filter (\<lambda>e. r \<in> set (f e)) es"
  by (induction es) (auto simp: count_list_distinct)

lemma map_of_envs_of:
  "map_of m r = (if r \<in> fst ` set m then Some (envs_of m r) else None)"
  by (auto simp: envs_of_def map_of_eq_None_iff split: option.splits)

text \<open>
  Claim C3. When every declared environment has a region list, matrix resolution returns a
  dict with each region once, and looking a region up gives exactly the environments that
  declare it, in declaration order (each as often as it lists the region, so once where no
  environment lists a region twice); a region that nobody declares is not a key.
  The specification's example resolves to
  \<open>{us-east-1: [dev, stage], us-west-2: [stage, prod]}\<close>.
\<close>

theorem matrix_resolution:
  "(\<forall>st :: settings. (\<forall>e \<in> set (pipeline_env st). env_regions st e \<noteq> None) \<longrightarrow>
      (\<exists>m. (resolve_regions_envs st :: 'j error + _) = Inr m \<and> distinct (map fst m)
         \<and> (\<forall>r. map_of m r = (if declaring st r = [] then None else Some (declaring st r)))
         \<and> ((\<forall>e \<in> set (pipeline_env st). distinct (declared_regions st e)) \<longrightarrow>
              (\<forall>r. declaring st r = filter (\<lambda>e. r \<in> set (declared_regions st e)) (pipeline_env st)))))
   \<and> (resolve_regions_envs example_settings :: 'j error + _) =
       Inr [(''us-east-1'', [''dev'', ''stage'']), (''us-west-2'', [''stage'', ''prod''])]"
proof (intro conjI allI impI)
  fix st :: settings
  assume all: "\<forall>e \<in> set (pipeline_env st). env_regions st e \<noteq> None"
  then obtain m where m: "envs_loop st (pipeline_env st) [] = (Inr m :: 'j error + _)"
    using envs_loop_Inr by blast
  have keys: "fst ` set m = (\<Union>e \<in> set (pipeline_env st). set (declared_regions st e))"
    using keys_envs_loop [OF m] by simp
  have vals: "envs_of m r = declaring st r" for r
    using envs_of_envs_loop [OF m] by (simp add: envs_of_def declaring_def)
  have look: "map_of m r = (if declaring st r = [] then None else Some (declaring st r))" for r
    unfolding map_of_envs_of [of m r] keys vals declaring_Nil_iff by auto
  have filt: "(\<forall>e \<in> set (pipeline_env st). distinct (declared_regions st e)) \<longrightarrow>
      (\<forall>r. declaring st r = filter (\<lambda>e. r \<in> set (declared_regions st e)) (pipeline_env st))"
    by (simp add: declaring_def concat_replicate_filter)
  show "\<exists>m. (resolve_regions_envs st :: 'j error + _) = Inr m \<and> distinct (map fst m)
         \<and> (\<forall>r. map_of m r = (if declaring st r = [] then None else Some (declaring st r)))
         \<and> ((\<forall>e \<in> set (pipeline_env st). distinct (declared_regions st e)) \<longrightarrow>
              (\<forall>r. declaring st r = filter (\<lambda>e. r \<in> set (declared_regions st e)) (pipeline_env st)))"
    using m distinct_envs_loop [OF m] look filt by (auto simp: resolve_regions_envs_def)
next
  show "(resolve_regions_envs example_settings :: 'j error + _) =
       Inr [(''us-east-1'', [''dev'', ''stage'']), (''us-west-2'', [''stage'', ''prod''])]"
    by (simp add: resolve_regions_envs_def example_settings_def)
qed

theorem matrix_resolution_witness:
  "list_all (\<lambda>e. env_regions example_settings e \<noteq> None
                   \<and> distinct (declared_regions example_settings e))
      (pipeline_env example_settings)
   \<and> map_of [(''us-east-1'', [''dev'', ''stage'']), (''us-west-2'', [''stage'', ''prod''])] ''us-west-2''
       = Some (filter (\<lambda>e. ''us-west-2'' \<in> set (declared_regions example_settings e))
                 (pipeline_env example_settings))"
  using matrix_resolution [THEN conjunct1, rule_format, of example_settings]
  by (simp add: example_settings_def declared_regions_def)

subsection \<open>The loop over the environments of a region\<close>

lemma chained_Cons: "chained prev (x # xs) = (x, prev) # chained (Some x) xs"
  by (simp add: chained_def)

lemma chained_Nil: "chained prev [] = []"
  by (simp add: chained_def)

lemma blocks_loop_pipeline:
  "snd (blocks_loop ext r envs prev p) =
     p\<lparr>stages := stages p @ concat (map (block_of ext r) (chained prev (available ext r envs)))\<rparr>"
proof (induction envs arbitrary: prev p)
  case Nil
  then show ?case by (simp add: available_def chained_Nil)
next
  case (Cons e envs)
  show ?case
  proof (cases "get_subnets ext e r")
    case None
    then show ?thesis
      using Cons.IH [of prev p] by (auto simp: available_def case_prod_beta split: if_splits)
  next
    case (Some sub)
    then show ?thesis
      using Cons.IH [of "Some e" "p\<lparr>stages := stages p @ construct_pipeline_block ext e prev r sub\<rparr>"]
      by (simp add: available_def chained_Cons block_of_def case_prod_beta)
  qed
qed



lemma posts_blocks_loop: "posts (fst (blocks_loop ext r envs prev p)) = []"
  by (induction envs arbitrary: prev p) (auto simp: case_prod_beta split: option.splits)


subsection \<open>The loop over the regions\<close>



lemma posts_append: "posts (xs @ ys) = posts xs @ posts ys"
  by (induction xs rule: posts.induct) auto


lemma render_wrapper_small:
  "root_volume_size (settings self) \<le> 50 \<Longrightarrow>
   render_wrapper self ext r =
     ([Ami_lookup (chosen_base self) r,
       Get_template (wrapper_app_data self (ami_lookup ext (chosen_base self) r) r)],
      Inr (wrapper_of self ext r))"
  by (simp add: render_wrapper_def wrapper_of_def Let_def)

lemma render_wrapper_large:
  "root_volume_size (settings self) > 50 \<Longrightarrow> render_wrapper self ext r = ([], Inl (volume_error self))"
  by (simp add: render_wrapper_def volume_error_def)

lemma dict_set_fresh: "k \<notin> fst ` set m \<Longrightarrow> dict_set k v m = m @ [(k, v)]"
  by (induction m) auto

lemma assemble_loop_pipelines:
  assumes "root_volume_size (settings self) \<le> 50"
  shows "distinct (map fst res) \<Longrightarrow> fst ` set res \<inter> fst ` set acc = {} \<Longrightarrow>
     snd (assemble_loop self ext res acc) = Inr (acc @ map (region_pipeline self ext) res)"
proof (induction res arbitrary: acc)
  case Nil
  then show ?case by simp
next
  case (Cons re res)
  obtain r envs where re: "re = (r, envs)" by (cases re)
  let ?p = "snd (blocks_loop ext r envs None (wrapper_of self ext r))"
  have fresh: "r \<notin> fst ` set acc" using Cons.prems re by auto
  have d: "distinct (map fst res)" using Cons.prems by simp
  have "fst ` set res \<inter> fst ` set (dict_set r ?p acc) = {}"
    using Cons.prems re by (auto simp: dict_set_fresh [OF fresh])
  from Cons.IH [OF d this] show ?case
    by (simp add: re render_wrapper_small [OF assms] case_prod_beta
        dict_set_fresh [OF fresh] region_pipeline_def)
qed



lemma assemble_loop_posts: "posts (fst (assemble_loop self ext res acc)) = []"
proof (induction res arbitrary: acc)
  case Nil
  then show ?case by simp
next
  case (Cons re res)
  obtain r envs where re: "re = (r, envs)" by (cases re)
  show ?case
    using Cons.IH
    by (cases "root_volume_size (settings self) \<le> 50")
       (simp_all add: re render_wrapper_def case_prod_beta posts_append posts_blocks_loop Let_def)
qed


lemma assemble_loop_large:
  "root_volume_size (settings self) > 50 \<Longrightarrow>
   assemble_loop self ext res acc =
     (if res = [] then ([], Inr acc) else ([], Inl (volume_error self)))"
  by (cases res) (auto simp: render_wrapper_large)

subsection \<open>Publishing\<close>

lemma post_pipeline_accepted:
  "ok (requests_post ext (json_dumps ext p)) \<Longrightarrow>
   post_pipeline self ext (PDict p) =
     ([Requests_post (json_dumps ext p), Log_info (Successfully_created (name p))], Inr ())"
  by (simp add: post_pipeline_def pipeline_json_def loaded_name_def Let_def)

lemma post_pipeline_rejected:
  "\<not> ok (requests_post ext (pipeline_json ext arg)) \<Longrightarrow>
   post_pipeline self ext arg =
     ([Requests_post (pipeline_json ext arg)],
      Inl (rejection self (requests_post ext (pipeline_json ext arg))))"
  by (simp add: post_pipeline_def rejection_def Let_def split: option.splits)


lemma publish_loop_Cons_accepted:
  "accepted ext (r, p) \<Longrightarrow>
   publish_loop self ext ((r, p) # rest) =
     (Renumerate_stages p # Requests_post (body_of ext p)
        # Log_info (Successfully_created (name (renumerate_stages ext p)))
        # fst (publish_loop self ext rest),
      snd (publish_loop self ext rest))"
  by (simp add: accepted_def body_of_def post_pipeline_accepted case_prod_beta)

lemma publish_loop_Cons_rejected:
  "\<not> accepted ext (r, p) \<Longrightarrow>
   publish_loop self ext ((r, p) # rest) =
     ([Renumerate_stages p, Requests_post (body_of ext p)],
      Inl (rejection self (requests_post ext (body_of ext p))))"
  by (simp add: accepted_def body_of_def post_pipeline_rejected pipeline_json_def)


lemma publish_loop_first_rejected:
  "list_all (accepted ext) ps \<Longrightarrow> \<not> accepted ext (r, p) \<Longrightarrow>
   snd (publish_loop self ext (ps @ (r, p) # rest))
     = Inl (rejection self (requests_post ext (body_of ext p)))
   \<and> posts (fst (publish_loop self ext (ps @ (r, p) # rest)))
     = map (\<lambda>rp. body_of ext (snd rp)) ps @ [body_of ext p]"
proof (induction ps)
  case Nil
  then show ?case by (simp add: publish_loop_Cons_rejected del: publish_loop.simps)
next
  case (Cons rp ps)
  obtain r' p' where rp: "rp = (r', p')" by (cases rp)
  from Cons show ?case by (simp add: rp publish_loop_Cons_accepted del: publish_loop.simps)
qed



lemma create_pipeline_small:
  fixes ext :: "('st, 'sub, 'j) externals"
  assumes m: "(resolve_regions_envs (settings self) :: 'j error + _) = Inr m"
    and small: "root_volume_size (settings self) \<le> 50"
  shows "fst (create_pipeline self ext) =
           Clean_pipelines (app_name self) # Log_info (Environments_and_Regions m) # Get_subnets
             # fst (assemble_loop self ext m []) @ fst (publish_loop self ext (map (region_pipeline self ext) m))"
    and "snd (create_pipeline self ext) =
           (case snd (publish_loop self ext (map (region_pipeline self ext) m)) of
              Inl err \<Rightarrow> Inl err | Inr u \<Rightarrow> Inr True)"
    and "assembled_pipelines self ext = Inr (map (region_pipeline self ext) m)"
proof -
  have d: "distinct (map fst m)"
    using m distinct_envs_loop [of "settings self" "pipeline_env (settings self)" "[]" m]
    by (simp add: resolve_regions_envs_def)
  have a: "snd (assemble_loop self ext m []) = Inr (map (region_pipeline self ext) m)"
    using assemble_loop_pipelines [OF small d, of "[]" ext] by simp
  show "fst (create_pipeline self ext) =
           Clean_pipelines (app_name self) # Log_info (Environments_and_Regions m) # Get_subnets
             # fst (assemble_loop self ext m []) @ fst (publish_loop self ext (map (region_pipeline self ext) m))"
    unfolding create_pipeline_def m
    by (simp add: case_prod_beta a split: sum.splits)
  show "snd (create_pipeline self ext) =
           (case snd (publish_loop self ext (map (region_pipeline self ext) m)) of
              Inl err \<Rightarrow> Inl err | Inr u \<Rightarrow> Inr True)"
    unfolding create_pipeline_def m
    by (simp add: case_prod_beta a split: sum.splits)
  show "assembled_pipelines self ext = Inr (map (region_pipeline self ext) m)"
    by (simp add: assembled_pipelines_def m a)
qed

subsection \<open>Assembly\<close>

lemma resolve_facts:
  assumes "\<forall>e \<in> set (pipeline_env st). env_regions st e \<noteq> None"
  shows "\<exists>m. (resolve_regions_envs st :: 'j error + _) = Inr m \<and> distinct (map fst m)
           \<and> (\<forall>r. envs_of m r = declaring st r)"
proof -
  obtain m where m: "envs_loop st (pipeline_env st) [] = (Inr m :: 'j error + _)"
    using envs_loop_Inr [OF assms] by blast
  have "envs_of m r = declaring st r" for r
    using envs_of_envs_loop [OF m] by (simp add: envs_of_def declaring_def)
  then show ?thesis
    using m distinct_envs_loop [OF m] by (simp add: resolve_regions_envs_def)
qed

lemma envs_of_member: "distinct (map fst m) \<Longrightarrow> (r, envs) \<in> set m \<Longrightarrow> envs_of m r = envs"
  by (simp add: envs_of_def)

lemma map_fst_region_pipeline: "map fst (map (region_pipeline self ext) m) = map fst m"
  by (simp add: region_pipeline_def)

lemma map_of_region_pipeline:
  "distinct (map fst m) \<Longrightarrow> (r, envs) \<in> set m \<Longrightarrow>
   map_of (map (region_pipeline self ext) m) r = Some (snd (region_pipeline self ext (r, envs)))"
proof -
  assume d: "distinct (map fst m)" and mem: "(r, envs) \<in> set m"
  have "distinct (map fst (map (region_pipeline self ext) m))"
    using d by (simp only: map_fst_region_pipeline)
  moreover have "region_pipeline self ext (r, envs) \<in> set (map (region_pipeline self ext) m)"
    using mem by simp
  moreover have "fst (region_pipeline self ext (r, envs)) = r"
    by (simp add: region_pipeline_def)
  ultimately show ?thesis
    by (metis map_of_is_SomeI prod.collapse)
qed

lemma region_pipeline_stages:
  "stages (snd (region_pipeline self ext (r, envs))) =
     stages (wrapper_of self ext r)
       @ concat (map (block_of ext r) (with_predecessor (available ext r envs)))"
  by (simp add: region_pipeline_def blocks_loop_pipeline with_predecessor_def)






subsection \<open>The concrete application, evaluated\<close>

lemmas example_defs =
  example_self_def example_settings_def example_ext_def rejecting_ext_def
  resolve_regions_envs_def assembled_pipelines_def create_pipeline_def render_wrapper_def
  wrapper_app_data_def chosen_base_def ami_template_file_def ami_templates_mapping_def
  post_pipeline_def pipeline_json_def loaded_name_def ok_def Let_def

lemma example_declares:
  "\<forall>e \<in> set (pipeline_env (settings example_self)). env_regions (settings example_self) e \<noteq> None"
  by (simp add: example_self_def example_settings_def)

lemma example_volume: "root_volume_size (settings example_self) \<le> 50"
  by (simp add: example_self_def example_settings_def)

lemma example_assembled:
  "assembled_pipelines example_self example_ext =
     Inr [(''us-east-1'',
           \<lparr>name = ''coreapp us-east-1'', application = ''coreapp'',
            stages = [''bake'', ''deploy dev'', ''judge dev'', ''deploy stage'', ''judge stage'']\<rparr>),
          (''us-west-2'',
           \<lparr>name = ''coreapp us-west-2'', application = ''coreapp'',
            stages = [''bake'', ''deploy prod'', ''judge prod'']\<rparr>)]"
  by (simp add: example_defs)


lemma example_declares_list:
  "list_all (\<lambda>e. env_regions (settings example_self) e \<noteq> None) (pipeline_env (settings example_self))"
  using example_declares by (simp add: list_all_iff)

subsection \<open>Assembled pipelines, chaining and skipped environments\<close>

text \<open>
  Claim C1. When every declared environment has a region list and the root volume size
  is allowed, every region of the resolved mapping has an assembled pipeline whose stage
  sequence is the wrapper's stages followed by the blocks of the region's available
  environments, in the environments' declaration order (each block rendered with its
  predecessor, as the code passes it).
\<close>

theorem assembled_stage_sequence:
  fixes ext :: "('st, 'sub, 'j) externals"
  assumes "\<forall>e \<in> set (pipeline_env (settings self)). env_regions (settings self) e \<noteq> None"
    and "root_volume_size (settings self) \<le> 50"
  shows "\<exists>m ps. (resolve_regions_envs (settings self) :: 'j error + _) = Inr m
           \<and> assembled_pipelines self ext = Inr ps \<and> map fst ps = map fst m
           \<and> (\<forall>(r, envs) \<in> set m. envs = declaring (settings self) r
                \<and> (\<exists>p. map_of ps r = Some p
                     \<and> stages p = stages (wrapper_of self ext r)
                         @ concat (map (block_of ext r) (with_predecessor (available ext r envs)))))"
proof -
  obtain m where m: "(resolve_regions_envs (settings self) :: 'j error + _) = Inr m"
    and d: "distinct (map fst m)" and v: "\<And>r. envs_of m r = declaring (settings self) r"
    using resolve_facts [OF assms(1)] by blast
  let ?ps = "map (region_pipeline self ext) m"
  have a: "assembled_pipelines self ext = Inr ?ps"
    by (rule create_pipeline_small(3) [OF m assms(2)])
  have "envs = declaring (settings self) r
      \<and> (\<exists>p. map_of ?ps r = Some p
            \<and> stages p = stages (wrapper_of self ext r)
                @ concat (map (block_of ext r) (with_predecessor (available ext r envs))))"
    if "(r, envs) \<in> set m" for r envs
    using envs_of_member [OF d that] v [of r] map_of_region_pipeline [OF d that, of self ext]
      region_pipeline_stages [of self ext r envs] by simp
  then show ?thesis
    using m a map_fst_region_pipeline [of self ext m] by blast
qed

theorem assembled_stage_sequence_witness:
  "list_all (\<lambda>e. env_regions (settings example_self) e \<noteq> None) (pipeline_env (settings example_self))
   \<and> root_volume_size (settings example_self) \<le> 50
   \<and> map (\<lambda>rp. (fst rp, stages (snd rp))) (projr (assembled_pipelines example_self example_ext))
       = [(''us-east-1'', [''bake'', ''deploy dev'', ''judge dev'', ''deploy stage'', ''judge stage'']),
          (''us-west-2'', [''bake'', ''deploy prod'', ''judge prod''])]
   \<and> (\<exists>m ps. (resolve_regions_envs (settings example_self) :: string error + _) = Inr m
         \<and> assembled_pipelines example_self example_ext = Inr ps \<and> map fst ps = map fst m)"
proof (intro conjI)
  show "list_all (\<lambda>e. env_regions (settings example_self) e \<noteq> None)
          (pipeline_env (settings example_self))"
    by (rule example_declares_list)
  show "\<exists>m ps. (resolve_regions_envs (settings example_self) :: string error + _) = Inr m
         \<and> assembled_pipelines example_self example_ext = Inr ps \<and> map fst ps = map fst m"
    using assembled_stage_sequence [OF example_declares example_volume, of example_ext] by blast
qed (simp_all add: example_volume example_assembled)

text \<open>
  Claim C2. Under the same conditions the assembled pipeline of every region has as many
  stages as the wrapper plus the blocks rendered for the region's available environments
  together: assembly drops and duplicates nothing.
\<close>

theorem stage_count_conservation:
  fixes ext :: "('st, 'sub, 'j) externals"
  assumes "\<forall>e \<in> set (pipeline_env (settings self)). env_regions (settings self) e \<noteq> None"
    and "root_volume_size (settings self) \<le> 50"
  shows "\<exists>m ps. (resolve_regions_envs (settings self) :: 'j error + _) = Inr m
           \<and> assembled_pipelines self ext = Inr ps \<and> map fst ps = map fst m
           \<and> (\<forall>(r, envs) \<in> set m. \<exists>p. map_of ps r = Some p
                \<and> length (stages p) = length (stages (wrapper_of self ext r))
                    + sum_list (map (\<lambda>ep. length (block_of ext r ep))
                                 (with_predecessor (available ext r envs))))"
proof -
  obtain m where m: "(resolve_regions_envs (settings self) :: 'j error + _) = Inr m"
    and d: "distinct (map fst m)"
    using resolve_facts [OF assms(1)] by blast
  let ?ps = "map (region_pipeline self ext) m"
  have a: "assembled_pipelines self ext = Inr ?ps"
    by (rule create_pipeline_small(3) [OF m assms(2)])
  have "\<exists>p. map_of ?ps r = Some p
          \<and> length (stages p) = length (stages (wrapper_of self ext r))
              + sum_list (map (\<lambda>ep. length (block_of ext r ep))
                           (with_predecessor (available ext r envs)))"
    if "(r, envs) \<in> set m" for r envs
    using map_of_region_pipeline [OF d that, of self ext]
    by (simp add: region_pipeline_stages length_concat comp_def)
  then show ?thesis
    using m a map_fst_region_pipeline [of self ext m] by blast
qed

theorem stage_count_conservation_witness:
  "list_all (\<lambda>e. env_regions (settings example_self) e \<noteq> None) (pipeline_env (settings example_self))
   \<and> root_volume_size (settings example_self) \<le> 50
   \<and> map (\<lambda>rp. (fst rp, length (stages (snd rp)))) (projr (assembled_pipelines example_self example_ext))
       = [(''us-east-1'', 1 + (2 + 2)), (''us-west-2'', 1 + 2)]
   \<and> (\<exists>m ps. (resolve_regions_envs (settings example_self) :: string error + _) = Inr m
         \<and> assembled_pipelines example_self example_ext = Inr ps \<and> map fst ps = map fst m)"
proof (intro conjI)
  show "list_all (\<lambda>e. env_regions (settings example_self) e \<noteq> None)
          (pipeline_env (settings example_self))"
    by (rule example_declares_list)
  show "\<exists>m ps. (resolve_regions_envs (settings example_self) :: string error + _) = Inr m
         \<and> assembled_pipelines example_self example_ext = Inr ps \<and> map fst ps = map fst m"
    using stage_count_conservation [OF example_declares example_volume, of example_ext] by blast
qed (simp_all add: example_volume example_assembled)





lemma create_pipeline_large:
  fixes ext :: "('st, 'sub, 'j) externals"
  assumes "root_volume_size (settings self) > 50"
  shows "create_pipeline self ext =
    (case (resolve_regions_envs (settings self) :: 'j error + _) of
       Inl err \<Rightarrow> ([Clean_pipelines (app_name self)], Inl err)
     | Inr m \<Rightarrow>
         ([Clean_pipelines (app_name self), Log_info (Environments_and_Regions m), Get_subnets],
          if m = [] then Inr True else Inl (volume_error self)))"
  by (simp add: create_pipeline_def assemble_loop_large [OF assms] split: sum.splits)

subsection \<open>The root volume limit\<close>

text \<open>
  Claim C10. With a \<^verbatim>\<open>root_volume_size\<close> over 50, \<^verbatim>\<open>render_wrapper\<close> raises
  \<^verbatim>\<open>SpinnakerPipelineCreationFailed\<close> with no AMI lookup and no template rendering
  before it, and a run of \<^verbatim>\<open>create_pipeline\<close> looks nothing up, renders no block,
  assembles no pipeline and sends no request; it ends in an error unless there is no
  region at all.
\<close>

theorem volume_limit:
  fixes ext :: "('st, 'sub, 'j) externals"
  assumes "root_volume_size (settings self) > 50"
  shows "render_wrapper self ext r = ([], Inl (volume_error self))
     \<and> lookups (fst (create_pipeline self ext)) = []
     \<and> posts (fst (create_pipeline self ext)) = []
     \<and> (\<forall>r'. block_calls r' (fst (create_pipeline self ext)) = [])
     \<and> (assembled_pipelines self ext = Inr [] \<or> (\<exists>err. assembled_pipelines self ext = Inl err))
     \<and> ((resolve_regions_envs (settings self) :: 'j error + _) = Inr [] \<or>
          (\<exists>err. snd (create_pipeline self ext) = Inl err))"
proof -
  have "assembled_pipelines self ext = Inr [] \<or> (\<exists>err. assembled_pipelines self ext = Inl err)"
    by (simp add: assembled_pipelines_def assemble_loop_large [OF assms] split: sum.splits)
  then show ?thesis
    by (simp add: render_wrapper_large [OF assms] create_pipeline_large [OF assms]
        split: sum.splits)
qed

lemma oversized_volume: "root_volume_size (settings oversized_self) > 50"
  by (simp add: oversized_self_def)

theorem volume_limit_witness:
  "root_volume_size (settings oversized_self) > 50
   \<and> render_wrapper oversized_self example_ext ''us-east-1''
       = ([], Inl (SpinnakerPipelineCreationFailed root_volume_size_message [ArgInt 60]))
   \<and> create_pipeline oversized_self example_ext
       = ([Clean_pipelines ''coreapp'',
           Log_info (Environments_and_Regions
             [(''us-east-1'', [''dev'', ''stage'']), (''us-west-2'', [''stage'', ''prod''])]),
           Get_subnets],
          Inl (SpinnakerPipelineCreationFailed root_volume_size_message [ArgInt 60]))
   \<and> posts (fst (create_pipeline oversized_self example_ext)) = []"
proof (intro conjI)
  show "root_volume_size (settings oversized_self) > 50" by (rule oversized_volume)
  show "render_wrapper oversized_self example_ext ''us-east-1''
       = ([], Inl (SpinnakerPipelineCreationFailed root_volume_size_message [ArgInt 60]))"
    using volume_limit [OF oversized_volume, of example_ext "''us-east-1''"]
    by (simp add: volume_error_def oversized_self_def)
  show "create_pipeline oversized_self example_ext
       = ([Clean_pipelines ''coreapp'',
           Log_info (Environments_and_Regions
             [(''us-east-1'', [''dev'', ''stage'']), (''us-west-2'', [''stage'', ''prod''])]),
           Get_subnets],
          Inl (SpinnakerPipelineCreationFailed root_volume_size_message [ArgInt 60]))"
    by (subst create_pipeline_large [OF oversized_volume])
       (simp add: volume_error_def oversized_self_def example_self_def example_settings_def
          resolve_regions_envs_def)
  then show "posts (fst (create_pipeline oversized_self example_ext)) = []"
    by simp
qed

subsection \<open>The response of the remote\<close>




text \<open>
  Claim C7, amended. For a response that is not \<^verbatim>\<open>ok\<close> and has a JSON body, the raised
  \<^verbatim>\<open>SpinnakerPipelineCreationFailed\<close> is built from the application name and the
  parsed payload, unchanged, and from nothing else.
\<close>

theorem creation_failed_payload:
  "\<not> ok (requests_post ext (pipeline_json ext arg)) \<Longrightarrow>
   json (requests_post ext (pipeline_json ext arg)) = Some j \<Longrightarrow>
   snd (post_pipeline self ext arg) =
     Inl (SpinnakerPipelineCreationFailed ''Failed to create pipeline for {0}: {1}''
            [ArgStr (app_name self), ArgJson j])"
  by (simp add: post_pipeline_rejected rejection_def)

text \<open>
  The claim as stated fails for the region: the pipelines of two different regions,
  rejected with the same payload, raise the same error.
\<close>

theorem creation_failed_payload_counterexample:
  "snd (region_pipeline example_self refusing_ext (''us-east-1'', [''dev'', ''stage''])) = east_pipeline
   \<and> snd (region_pipeline example_self refusing_ext (''us-west-2'', [''stage'', ''prod''])) = west_pipeline
   \<and> snd (post_pipeline example_self refusing_ext (PDict east_pipeline))
       = Inl (SpinnakerPipelineCreationFailed ''Failed to create pipeline for {0}: {1}''
                [ArgStr ''coreapp'', ArgJson ''conflict''])
   \<and> snd (post_pipeline example_self refusing_ext (PDict west_pipeline))
       = snd (post_pipeline example_self refusing_ext (PDict east_pipeline))
   \<and> ''us-east-1'' \<noteq> ''us-west-2''"
  by (simp add: post_pipeline_def ok_def Let_def pipeline_json_def loaded_name_def
      refusing_ext_def example_ext_def example_self_def example_settings_def
      region_pipeline_def wrapper_of_def wrapper_app_data_def chosen_base_def
      east_pipeline_def west_pipeline_def)

theorem creation_failed_payload_witness:
  "\<not> ok (requests_post refusing_ext (pipeline_json refusing_ext (PDict west_pipeline)))
   \<and> json (requests_post refusing_ext (pipeline_json refusing_ext (PDict west_pipeline))) = Some ''conflict''
   \<and> snd (post_pipeline example_self refusing_ext (PDict west_pipeline)) =
       Inl (SpinnakerPipelineCreationFailed ''Failed to create pipeline for {0}: {1}''
              [ArgStr (app_name example_self), ArgJson ''conflict''])"
proof -
  have a: "\<not> ok (requests_post refusing_ext (pipeline_json refusing_ext (PDict west_pipeline)))"
    by (simp add: ok_def refusing_ext_def example_ext_def)
  have b: "json (requests_post refusing_ext (pipeline_json refusing_ext (PDict west_pipeline))) = Some ''conflict''"
    by (simp add: refusing_ext_def example_ext_def)
  show ?thesis using a b creation_failed_payload [OF a b, of example_self] by (intro conjI)
qed

subsection \<open>A rejected region\<close>

lemma create_pipeline_posts_rejected:
  fixes ext :: "('st, 'sub, 'j) externals"
  assumes m: "(resolve_regions_envs (settings self) :: 'j error + _) = Inr m"
    and small: "root_volume_size (settings self) \<le> 50"
    and split: "map (region_pipeline self ext) m = before @ (r, p) # after"
    and acc: "list_all (accepted ext) before" and rej: "\<not> accepted ext (r, p)"
  shows "posts (fst (create_pipeline self ext))
           = map (\<lambda>rp. body_of ext (snd rp)) before @ [body_of ext p]"
    and "snd (create_pipeline self ext) = Inl (rejection self (requests_post ext (body_of ext p)))"
  using publish_loop_first_rejected [OF acc rej, of self after]
  by (simp_all add: create_pipeline_small(1,2) [OF m small] split posts_append assemble_loop_posts)

text \<open>
  Claim C9, amended. When the remote rejects the pipeline of a region, the regions before
  it in the order of \<^verbatim>\<open>pipelines\<close> have been published as they would have been
  otherwise, the rejected request is the last one sent, the regions after it are not
  published, and the error leaves \<^verbatim>\<open>create_pipeline\<close>.
\<close>

theorem publish_failure_aborts:
  fixes ext :: "('st, 'sub, 'j) externals"
  assumes "\<forall>e \<in> set (pipeline_env (settings self)). env_regions (settings self) e \<noteq> None"
    and "root_volume_size (settings self) \<le> 50"
    and "assembled_pipelines self ext = Inr (before @ (r, p) # after)"
    and "list_all (accepted ext) before" and "\<not> accepted ext (r, p)"
  shows "posts (fst (create_pipeline self ext))
           = map (\<lambda>rp. body_of ext (snd rp)) before @ [body_of ext p]
     \<and> snd (create_pipeline self ext) = Inl (rejection self (requests_post ext (body_of ext p)))"
proof -
  obtain m where m: "(resolve_regions_envs (settings self) :: 'j error + _) = Inr m"
    using resolve_facts [OF assms(1)] by blast
  have "map (region_pipeline self ext) m = before @ (r, p) # after"
    using create_pipeline_small(3) [OF m assms(2), of ext] assms(3) by simp
  from create_pipeline_posts_rejected [OF m assms(2) this assms(4,5)]
  show ?thesis by simp
qed

lemma rejecting_assembled:
  "assembled_pipelines example_self rejecting_ext =
     Inr ([] @ (''us-east-1'', east_pipeline) # [(''us-west-2'', west_pipeline)])"
  by (simp add: example_defs east_pipeline_def west_pipeline_def)

lemma rejecting_east: "\<not> accepted rejecting_ext (''us-east-1'', east_pipeline)"
  by (simp add: accepted_def body_of_def ok_def rejecting_ext_def example_ext_def east_pipeline_def)

lemma rejecting_west: "accepted rejecting_ext (''us-west-2'', west_pipeline)"
  by (simp add: accepted_def body_of_def ok_def rejecting_ext_def example_ext_def west_pipeline_def)

text \<open>
  The claim as stated fails when the remote rejects \<open>us-east-1\<close> only: the pipeline of
  \<open>us-west-2\<close>, which the remote would accept, is never sent.
\<close>

theorem publish_failure_aborts_counterexample:
  "assembled_pipelines example_self rejecting_ext =
     Inr [(''us-east-1'', east_pipeline), (''us-west-2'', west_pipeline)]
   \<and> \<not> accepted rejecting_ext (''us-east-1'', east_pipeline)
   \<and> accepted rejecting_ext (''us-west-2'', west_pipeline)
   \<and> body_of rejecting_ext west_pipeline = ''coreapp us-west-2''
   \<and> posts (fst (create_pipeline example_self rejecting_ext)) = [''coreapp us-east-1'']
   \<and> ''coreapp us-west-2'' \<notin> set (posts (fst (create_pipeline example_self rejecting_ext)))
   \<and> snd (create_pipeline example_self rejecting_ext)
       = Inl (SpinnakerPipelineCreationFailed ''Failed to create pipeline for {0}: {1}''
                [ArgStr ''coreapp'', ArgJson ''conflict''])"
proof -
  have run: "create_pipeline example_self rejecting_ext =
    ([Clean_pipelines ''coreapp'',
      Log_info (Environments_and_Regions
        [(''us-east-1'', [''dev'', ''stage'']), (''us-west-2'', [''stage'', ''prod''])]),
      Get_subnets,
      Ami_lookup ''fedora'' ''us-east-1'',
      Get_template (wrapper_app_data example_self ''ami-fedora'' ''us-east-1''),
      Construct_pipeline_block ''dev'' None ''us-east-1'',
      Construct_pipeline_block ''stage'' (Some ''dev'') ''us-east-1'',
      Ami_lookup ''fedora'' ''us-west-2'',
      Get_template (wrapper_app_data example_self ''ami-fedora'' ''us-west-2''),
      Log_info (Not_available ''stage'' ''us-west-2''),
      Construct_pipeline_block ''prod'' None ''us-west-2'',
      Renumerate_stages east_pipeline,
      Requests_post ''coreapp us-east-1''],
     Inl (SpinnakerPipelineCreationFailed ''Failed to create pipeline for {0}: {1}''
            [ArgStr ''coreapp'', ArgJson ''conflict'']))"
    by (simp add: example_defs east_pipeline_def)
  have body: "body_of rejecting_ext west_pipeline = ''coreapp us-west-2''"
    by (simp add: body_of_def rejecting_ext_def example_ext_def west_pipeline_def)
  show ?thesis
    using rejecting_assembled rejecting_east rejecting_west body by (simp add: run)
qed

theorem publish_failure_aborts_witness:
  "list_all (\<lambda>e. env_regions (settings example_self) e \<noteq> None) (pipeline_env (settings example_self))
   \<and> root_volume_size (settings example_self) \<le> 50
   \<and> assembled_pipelines example_self rejecting_ext =
       Inr ([] @ (''us-east-1'', east_pipeline) # [(''us-west-2'', west_pipeline)])
   \<and> list_all (accepted rejecting_ext) []
   \<and> \<not> accepted rejecting_ext (''us-east-1'', east_pipeline)
   \<and> posts (fst (create_pipeline example_self rejecting_ext))
       = map (\<lambda>rp. body_of rejecting_ext (snd rp)) ([] :: (region \<times> string pipeline) list)
           @ [body_of rejecting_ext east_pipeline]
   \<and> snd (create_pipeline example_self rejecting_ext)
       = Inl (rejection example_self (requests_post rejecting_ext (body_of rejecting_ext east_pipeline)))"
proof -
  have nil: "list_all (accepted rejecting_ext) []" by simp
  note t = publish_failure_aborts [OF example_declares example_volume rejecting_assembled nil rejecting_east]
  show ?thesis
    using example_declares_list example_volume rejecting_assembled nil rejecting_east
      t [THEN conjunct1] t [THEN conjunct2]
    by (intro conjI)
qed

subsection \<open>Clean, then create\<close>












end
